theory Spec2Isabelle
  imports Main
begin

section \<open>Values, exceptions and outcomes\<close>

text \<open>
  The program is one Python module, \<open>main.py\<close>: a voice-driven chess session on top of the
  python-chess library. Its game logic is the five procedures \<open>parse_command\<close>,
  \<open>make_move\<close>, \<open>undo_move\<close>, \<open>redo_move\<close> and \<open>play_best\<close>, with \<open>save_pgn\<close> and
  \<open>draw_status\<close> as their helpers. They act on three module-level variables: \<open>board\<close>,
  \<open>move_history\<close> and \<open>redo_stack\<close>.

  An exception is a value. A procedure ends in an \<open>outcome\<close>: it returns a Python value, or it
  raises; in both cases the module-level variables are left in some state, which the outcome
  carries.
\<close>

datatype exn = IndexError | ValueError | AssertionError | OSError | EngineError | TypeError

datatype pyval = PyNone | PyBool bool | PyStr string

datatype ('v, 's) outcome = Returns 'v 's | Raises exn 's

fun state_of :: "('v, 's) outcome \<Rightarrow> 's" where
  "state_of (Returns v s) = s"
| "state_of (Raises e s) = s"

section \<open>Command interpretation: \<open>parse_command\<close>\<close>

text \<open>
  Tokens are ASCII text (the recogniser's transcript, lower-cased). \<open>upper\<close> is Python's
  \<open>str.upper\<close> on one ASCII character: the letters a to z move to A to Z, every other
  character stays.
\<close>

definition upper :: "char \<Rightarrow> char" where
  "upper c = (let n = (of_char c :: nat) in if 97 \<le> n \<and> n \<le> 122 then char_of (n - 32) else c)"

definition remove_spaces :: "string \<Rightarrow> string" where
  \<comment> \<open>\<open>cmd.replace(" ", "")\<close>: only the space character is removed.\<close>
  "remove_spaces cmd = filter (\<lambda>c. c \<noteq> CHR '' '') cmd"

definition parse_command :: "string \<Rightarrow> exn + pyval" where
  "parse_command cmd =
     (if cmd = [] then Inr PyNone
      else let c = remove_spaces cmd in
        if c \<in> set [''undo'', ''redo'', ''playbestmove''] then Inr (PyStr c)
        else if length c = 2 then Inr (PyStr c)
        else (case c of
                [] \<Rightarrow> Inl IndexError
              | x # xs \<Rightarrow> Inr (PyStr (upper x # xs))))"

section \<open>The chess library, as far as the program uses it\<close>

text \<open>
  python-chess is not part of the repository, so its operations are parameters of the model:
  a record of functions over a type \<open>'p\<close> of positions (piece placement, side to move,
  castling rights, en-passant square, half-move clock and full-move number) and a type \<open>'m\<close>
  of moves. A library call that can raise returns a sum, the exception on the left.

  \<^item> \<open>start_pos\<close>: the position of \<open>chess.Board()\<close>;
  \<^item> \<open>parse_san p tok\<close>: \<open>board.parse_san(tok)\<close> in position \<open>p\<close>;
  \<^item> \<open>from_uci tok\<close>: \<open>chess.Move.from_uci(tok)\<close>;
  \<^item> \<open>move_bool m\<close>: the truth value of a move (the null move is false);
  \<^item> \<open>is_legal p m\<close>: \<open>m in board.legal_moves\<close>;
  \<^item> \<open>san p m\<close>: \<open>board.san(m)\<close>, which checks no legality but fails an assertion on
    some moves that are not legal;
  \<^item> \<open>apply_move p m\<close>: the position after \<open>board.push(m)\<close>; \<open>push\<close> checks no
    legality either;
  \<^item> \<open>is_checkmate\<close>, \<open>is_check\<close>, \<open>is_stalemate\<close>: the status queries;
  \<^item> \<open>open_ok\<close>: whether \<open>game_log.pgn\<close> can be opened for writing.
\<close>

record ('p, 'm) chess_lib =
  start_pos :: 'p
  parse_san :: "'p \<Rightarrow> string \<Rightarrow> exn + 'm"
  from_uci :: "string \<Rightarrow> exn + 'm"
  move_bool :: "'m \<Rightarrow> bool"
  is_legal :: "'p \<Rightarrow> 'm \<Rightarrow> bool"
  san :: "'p \<Rightarrow> 'm \<Rightarrow> exn + string"
  apply_move :: "'p \<Rightarrow> 'm \<Rightarrow> 'p"
  is_checkmate :: "'p \<Rightarrow> bool"
  is_check :: "'p \<Rightarrow> bool"
  is_stalemate :: "'p \<Rightarrow> bool"
  open_ok :: bool

text \<open>
  A \<open>chess.Board\<close> keeps, beside its current position, the list \<open>move_stack\<close> of the moves
  pushed and a list of the same length with the position saved before each of them.
  \<open>push\<close> saves the current position and appends the move; \<open>pop\<close> removes the last move
  and restores the position saved with it. The two lists are kept as one list of pairs.
\<close>

record ('p, 'm) chess_board =
  pos :: 'p
  stack :: "('p \<times> 'm) list"

definition move_stack :: "('p, 'm) chess_board \<Rightarrow> 'm list" where
  "move_stack b = map snd (stack b)"

definition new_board :: "('p, 'm) chess_lib \<Rightarrow> ('p, 'm) chess_board" where
  "new_board L = \<lparr>pos = start_pos L, stack = []\<rparr>"

definition push :: "('p, 'm) chess_lib \<Rightarrow> 'm \<Rightarrow> ('p, 'm) chess_board \<Rightarrow> ('p, 'm) chess_board" where
  "push L m b = \<lparr>pos = apply_move L (pos b) m, stack = stack b @ [(pos b, m)]\<rparr>"

definition pop :: "('p, 'm) chess_board \<Rightarrow> exn + ('m \<times> ('p, 'm) chess_board)" where
  \<comment> \<open>\<open>board.pop()\<close> on an empty move stack raises IndexError.\<close>
  "pop b = (if stack b = [] then Inl IndexError
            else Inr (snd (last (stack b)), \<lparr>pos = fst (last (stack b)), stack = butlast (stack b)\<rparr>))"

section \<open>The session state\<close>

text \<open>
  The module-level variables \<open>board\<close>, \<open>move_history\<close> (the notation of every applied move)
  and \<open>redo_stack\<close>, together with the two things the procedures write outside the module:
  the file \<open>game_log.pgn\<close>, held as the move sequence of the game record last written
  (\<open>None\<close> before the first write), and the lines printed to the console.
\<close>

datatype line = Illegal_move string | Move_error exn

record ('p, 'm) session =
  board :: "('p, 'm) chess_board"
  move_history :: "string list"
  redo_stack :: "'m list"
  pgn_file :: "'m list option"
  console :: "line list"

definition initial :: "('p, 'm) chess_lib \<Rightarrow> ('p, 'm) session" where
  "initial L = \<lparr>board = new_board L, move_history = [], redo_stack = [], pgn_file = None,
                console = []\<rparr>"

definition print_line :: "line \<Rightarrow> ('p, 'm) session \<Rightarrow> ('p, 'm) session" where
  "print_line l s = s\<lparr>console := console s @ [l]\<rparr>"

section \<open>Game logic\<close>

definition save_pgn :: "('p, 'm) chess_lib \<Rightarrow> ('p, 'm) session \<Rightarrow> (pyval, ('p, 'm) session) outcome" where
  \<comment> \<open>A fresh game is built from \<open>board.move_stack\<close> and printed to the file, which is
      opened with mode \<open>w\<close>, so its old content is replaced.\<close>
  "save_pgn L s =
     (if open_ok L then Returns PyNone (s\<lparr>pgn_file := Some (move_stack (board s))\<rparr>)
      else Raises OSError s)"

definition parse_move :: "('p, 'm) chess_lib \<Rightarrow> 'p \<Rightarrow> string \<Rightarrow> exn + 'm option" where
  \<comment> \<open>The first half of \<open>make_move\<close>: \<open>parse_san\<close> inside its own \<open>try\<close> with a bare
      \<open>except: pass\<close>, then \<open>from_uci\<close> when no move came out and the token has length 4. An
      exception of \<open>from_uci\<close> goes to the outer handler of \<open>make_move\<close>.\<close>
  "parse_move L p move_str =
     (let move = (case parse_san L p move_str of Inl e \<Rightarrow> None | Inr m \<Rightarrow> Some m) in
      if move = None \<and> length move_str = 4
      then (case from_uci L move_str of Inl e \<Rightarrow> Inl e | Inr m \<Rightarrow> Inr (Some m))
      else Inr move)"

definition make_move :: "('p, 'm) chess_lib \<Rightarrow> string \<Rightarrow> ('p, 'm) session \<Rightarrow> (pyval, ('p, 'm) session) outcome" where
  \<comment> \<open>Every exception is caught by the outer \<open>except Exception\<close>, which prints it.\<close>
  "make_move L move_str s =
     (case parse_move L (pos (board s)) move_str of
        Inl e \<Rightarrow> Returns PyNone (print_line (Move_error e) s)
      | Inr None \<Rightarrow> Returns PyNone (print_line (Illegal_move move_str) s)
      | Inr (Some move) \<Rightarrow>
          if move_bool L move \<and> is_legal L (pos (board s)) move then
            (case san L (pos (board s)) move of
               Inl e \<Rightarrow> Returns PyNone (print_line (Move_error e) s)
             | Inr sn \<Rightarrow>
                 (case save_pgn L (s\<lparr>board := push L move (board s),
                                      move_history := move_history s @ [sn],
                                      redo_stack := []\<rparr>) of
                    Returns v s' \<Rightarrow> Returns PyNone s'
                  | Raises e s' \<Rightarrow> Returns PyNone (print_line (Move_error e) s')))
          else Returns PyNone (print_line (Illegal_move move_str) s))"

definition undo_move :: "('p, 'm) session \<Rightarrow> (pyval, ('p, 'm) session) outcome" where
  \<comment> \<open>\<open>move_history.pop()\<close> on an empty list raises IndexError, after the board was popped.\<close>
  "undo_move s =
     (if move_stack (board s) \<noteq> [] then
        (case pop (board s) of
           Inl e \<Rightarrow> Raises e s
         | Inr (m, b) \<Rightarrow>
             let s1 = s\<lparr>board := b, redo_stack := redo_stack s @ [m]\<rparr> in
             if move_history s1 = [] then Raises IndexError s1
             else Returns PyNone (s1\<lparr>move_history := butlast (move_history s1)\<rparr>))
      else Returns PyNone s)"

definition redo_move :: "('p, 'm) chess_lib \<Rightarrow> ('p, 'm) session \<Rightarrow> (pyval, ('p, 'm) session) outcome" where
  \<comment> \<open>No handler: an exception of \<open>board.san\<close> leaves the procedure after the pop.\<close>
  "redo_move L s =
     (if redo_stack s \<noteq> [] then
        let move = last (redo_stack s);
            s1 = s\<lparr>redo_stack := butlast (redo_stack s)\<rparr> in
        (case san L (pos (board s1)) move of
           Inl e \<Rightarrow> Raises e s1
         | Inr sn \<Rightarrow> Returns PyNone (s1\<lparr>board := push L move (board s1),
                                         move_history := move_history s1 @ [sn]\<rparr>))
      else Returns PyNone s)"

text \<open>
  The engine is an external process. \<open>play_best\<close> takes its answer to this one query as an
  argument: \<open>None\<close> when the module has no engine, \<open>Some (Inl e)\<close> when \<open>engine.play\<close>
  raises or its result carries no move that \<open>board.san\<close> accepts as an argument, and
  \<open>Some (Inr m)\<close> when the result's move is \<open>m\<close>.
\<close>

definition play_best :: "('p, 'm) chess_lib \<Rightarrow> (exn + 'm) option \<Rightarrow> ('p, 'm) session \<Rightarrow> (pyval, ('p, 'm) session) outcome" where
  "play_best L reply s =
     (case reply of
        None \<Rightarrow> Returns PyNone s
      | Some (Inl e) \<Rightarrow> Raises e s
      | Some (Inr m) \<Rightarrow>
          (case san L (pos (board s)) m of
             Inl e \<Rightarrow> Raises e s
           | Inr sn \<Rightarrow> make_move L sn s))"





fun repeat :: "nat \<Rightarrow> ('s \<Rightarrow> (pyval, 's) outcome) \<Rightarrow> 's \<Rightarrow> (pyval, 's) outcome" where
  \<comment> \<open>A procedure called \<open>n\<close> times in a row; a raise ends the run.\<close>
  "repeat 0 f s = Returns PyNone s"
| "repeat (Suc n) f s = (case f s of Returns v s' \<Rightarrow> repeat n f s' | Raises e s' \<Rightarrow> Raises e s')"

section \<open>A part of the library written out\<close>

text \<open>
  To run the procedures on concrete inputs, a part of python-chess is written out: the start
  position and the twenty positions after White's first move, where the legal moves and their
  notation can be listed in full (twenty moves each, none a capture, none a check). A
  position is given by the moves played from the start position, a move by its origin and
  destination squares; the null move is \<open>a1a1\<close>, as in the library. Outside these
  twenty-one positions the tables are empty. \<open>x_parse_san\<close> reads the notation as
  the tables list it (the library reads other spellings of the same moves as well) and the
  four spellings of the null move; \<open>x_from_uci\<close> reads two different squares and \<open>0000\<close>.

  \<open>board.san\<close> checks no legality: it writes any move whose origin square holds a piece
  and fails an assertion when that square is empty. \<open>x_san\<close> follows it, in the start
  position, for the moves of \<open>stray_moves\<close>: a white pawn taken from its square to any empty
  square (written by the destination alone, as no piece is captured), and a knight of White
  taken to an empty square of the third to fifth rank (written \<open>N\<close> and the destination,
  with the file of origin in between when the other knight can legally go there). None of
  these gives check. For every other move that is not legal (another piece, an occupied
  destination, an empty origin, a position after the first move) \<open>x_san\<close> answers with the
  assertion error, which is the library's answer for an empty origin only; nothing below
  evaluates \<open>x_san\<close> there.
\<close>

datatype move = Move string string

type_synonym position = "move list"

definition white_moves :: "(move \<times> string) list" where
  "white_moves =
     concat (map (\<lambda>f. [(Move [f, CHR ''2''] [f, CHR ''3''], [f, CHR ''3'']),
                        (Move [f, CHR ''2''] [f, CHR ''4''], [f, CHR ''4''])]) ''abcdefgh'') @
     [(Move ''b1'' ''a3'', ''Na3''), (Move ''b1'' ''c3'', ''Nc3''),
      (Move ''g1'' ''f3'', ''Nf3''), (Move ''g1'' ''h3'', ''Nh3'')]"

definition black_moves :: "(move \<times> string) list" where
  "black_moves =
     concat (map (\<lambda>f. [(Move [f, CHR ''7''] [f, CHR ''6''], [f, CHR ''6'']),
                        (Move [f, CHR ''7''] [f, CHR ''5''], [f, CHR ''5''])]) ''abcdefgh'') @
     [(Move ''b8'' ''a6'', ''Na6''), (Move ''b8'' ''c6'', ''Nc6''),
      (Move ''g8'' ''f6'', ''Nf6''), (Move ''g8'' ''h6'', ''Nh6'')]"

definition legal_table :: "position \<Rightarrow> (move \<times> string) list" where
  "legal_table p =
     (case p of
        [] \<Rightarrow> white_moves
      | [w] \<Rightarrow> if w \<in> set (map fst white_moves) then black_moves else []
      | _ \<Rightarrow> [])"

definition empty_squares :: "string \<Rightarrow> string list" where
  \<comment> \<open>The squares of the given ranks; in the start position ranks 3 to 6 are empty.\<close>
  "empty_squares ranks = concat (map (\<lambda>f. map (\<lambda>r. [f, r]) ranks) ''abcdefgh'')"

definition stray_moves :: "(move \<times> string) list" where
  "stray_moves =
     concat (map (\<lambda>f. map (\<lambda>sq. (Move [f, CHR ''2''] sq, sq)) (empty_squares ''3456''))
               ''abcdefgh'') @
     [(Move ''b1'' ''f3'', ''Nbf3''), (Move ''b1'' ''h3'', ''Nbh3''),
      (Move ''g1'' ''a3'', ''Nga3''), (Move ''g1'' ''c3'', ''Ngc3'')] @
     concat (map (\<lambda>from. map (\<lambda>sq. (Move from sq, CHR ''N'' # sq)) (empty_squares ''345''))
               [''b1'', ''g1''])"

definition null_move :: move where
  "null_move = Move ''a1'' ''a1''"

definition is_square :: "string \<Rightarrow> bool" where
  "is_square sq = (case sq of [f, r] \<Rightarrow> f \<in> set ''abcdefgh'' \<and> r \<in> set ''12345678'' | _ \<Rightarrow> False)"

definition x_parse_san :: "position \<Rightarrow> string \<Rightarrow> exn + move" where
  "x_parse_san p tok =
     (if tok \<in> set [''--'', ''Z0'', ''0000'', ''@@@@''] then Inr null_move
      else (case find (\<lambda>e. snd e = tok) (legal_table p) of
              Some e \<Rightarrow> Inr (fst e)
            | None \<Rightarrow> Inl ValueError))"

definition x_from_uci :: "string \<Rightarrow> exn + move" where
  "x_from_uci tok =
     (if tok = ''0000'' then Inr null_move
      else if length tok = 4 \<and> is_square (take 2 tok) \<and> is_square (drop 2 tok)
              \<and> take 2 tok \<noteq> drop 2 tok
      then Inr (Move (take 2 tok) (drop 2 tok))
      else Inl ValueError)"

definition x_san :: "position \<Rightarrow> move \<Rightarrow> exn + string" where
  "x_san p m =
     (if m = null_move then Inr ''--''
      else (case map_of (legal_table p) m of
              Some sn \<Rightarrow> Inr sn
            | None \<Rightarrow>
                (case (if p = [] then map_of stray_moves m else None) of
                   Some sn \<Rightarrow> Inr sn
                 | None \<Rightarrow> Inl AssertionError)))"

definition chess_part :: "(position, move) chess_lib" where
  "chess_part =
     \<lparr>start_pos = [],
      parse_san = x_parse_san,
      from_uci = x_from_uci,
      move_bool = (\<lambda>m. m \<noteq> null_move),
      is_legal = (\<lambda>p m. m \<in> set (map fst (legal_table p))),
      san = x_san,
      apply_move = (\<lambda>p m. p @ [m]),
      is_checkmate = (\<lambda>p. False),
      is_check = (\<lambda>p. False),
      is_stalemate = (\<lambda>p. False),
      open_ok = True\<rparr>"

section \<open>Runs of the session and the properties they keep\<close>

text \<open>
  A run is a list of procedure calls made one after the other from some state, as the main
  loop makes them; an uncaught exception ends it.
\<close>

datatype 'm call = Make_move string | Undo_move | Redo_move | Play_best "(exn + 'm) option"

definition exec :: "('p, 'm) chess_lib \<Rightarrow> 'm call \<Rightarrow> ('p, 'm) session \<Rightarrow> (pyval, ('p, 'm) session) outcome" where
  "exec L c s =
     (case c of
        Make_move tok \<Rightarrow> make_move L tok s
      | Undo_move \<Rightarrow> undo_move s
      | Redo_move \<Rightarrow> redo_move L s
      | Play_best reply \<Rightarrow> play_best L reply s)"

fun run :: "('p, 'm) chess_lib \<Rightarrow> 'm call list \<Rightarrow> ('p, 'm) session \<Rightarrow> (pyval, ('p, 'm) session) outcome" where
  "run L [] s = Returns PyNone s"
| "run L (c # cs) s = (case exec L c s of Returns v s' \<Rightarrow> run L cs s' | Raises e s' \<Rightarrow> Raises e s')"

text \<open>
  \<open>history_matches\<close>: the notation list and the move stack have the same length, and each
  entry is the notation \<open>board.san\<close> gives the stacked move in the position saved with it,
  the position in which it was played.
\<close>

definition history_matches :: "('p, 'm) chess_lib \<Rightarrow> ('p, 'm) session \<Rightarrow> bool" where
  "history_matches L s =
     list_all2 (\<lambda>e sn. san L (fst e) (snd e) = Inr sn) (stack (board s)) (move_history s)"

text \<open>
  \<open>linked\<close>: every saved position, with its move applied, gives the next saved position,
  and the last one gives the current position. A board built by \<open>push\<close> and \<open>pop\<close> from a
  new board is linked.
\<close>

fun follows :: "('p, 'm) chess_lib \<Rightarrow> ('p \<times> 'm) list \<Rightarrow> 'p \<Rightarrow> bool" where
  "follows L [] p = True"
| "follows L [e] p = (p = apply_move L (fst e) (snd e))"
| "follows L (e # e' # st) p = (fst e' = apply_move L (fst e) (snd e) \<and> follows L (e' # st) p)"

definition linked :: "('p, 'm) chess_lib \<Rightarrow> ('p, 'm) chess_board \<Rightarrow> bool" where
  "linked L b = follows L (stack b) (pos b)"

text \<open>
  \<open>replayable L p ms\<close>: the moves \<open>ms\<close> can be played one after the other from \<open>p\<close>, each
  legal where it is played and with a notation there.
\<close>

fun replayable :: "('p, 'm) chess_lib \<Rightarrow> 'p \<Rightarrow> 'm list \<Rightarrow> bool" where
  "replayable L p [] = True"
| "replayable L p (m # ms) =
     (is_legal L p m \<and> \<not> isl (san L p m) \<and> replayable L (apply_move L p m) ms)"

definition consistent :: "('p, 'm) chess_lib \<Rightarrow> ('p, 'm) session \<Rightarrow> bool" where
  "consistent L s =
     (history_matches L s \<and> linked L (board s)
      \<and> list_all (\<lambda>e. is_legal L (fst e) (snd e)) (stack (board s))
      \<and> replayable L (pos (board s)) (rev (redo_stack s)))"

text \<open>
  \<open>rejected\<close>: the token gives no move (its notation is not parsed, or parsing raises), or
  the move it gives is not a legal move of the position.
\<close>

definition rejected :: "('p, 'm) chess_lib \<Rightarrow> 'p \<Rightarrow> string \<Rightarrow> bool" where
  "rejected L p tok =
     (case parse_move L p tok of
        Inl e \<Rightarrow> True
      | Inr None \<Rightarrow> True
      | Inr (Some m) \<Rightarrow> \<not> (move_bool L m \<and> is_legal L p m))"

text \<open>
  The reading order of the two notations as the specification words it, for comparison with
  \<open>parse_move\<close>: a token of exactly four letters or digits is read as coordinate form first
  and as algebraic form when that fails; any other token is read as algebraic form only.
\<close>

definition alnum :: "char \<Rightarrow> bool" where
  "alnum c = (let n = (of_char c :: nat) in
                (48 \<le> n \<and> n \<le> 57) \<or> (65 \<le> n \<and> n \<le> 90) \<or> (97 \<le> n \<and> n \<le> 122))"

definition parse_move_claimed :: "('p, 'm) chess_lib \<Rightarrow> 'p \<Rightarrow> string \<Rightarrow> exn + 'm option" where
  "parse_move_claimed L p tok =
     (let algebraic = (case parse_san L p tok of Inl e \<Rightarrow> None | Inr m \<Rightarrow> Some m) in
      if length tok = 4 \<and> list_all alnum tok
      then (case from_uci L tok of Inl e \<Rightarrow> Inr algebraic | Inr m \<Rightarrow> Inr (Some m))
      else Inr algebraic)"

text \<open>Some moves and states of the written-out part, named for the examples below.\<close>

abbreviation e2e4 :: move where "e2e4 \<equiv> Move ''e2'' ''e4''"
abbreviation e7e5 :: move where "e7e5 \<equiv> Move ''e7'' ''e5''"
abbreviation e2e5 :: move where "e2e5 \<equiv> Move ''e2'' ''e5''"

definition after_e4 :: "(position, move) session" where
  "after_e4 =
     \<lparr>board = \<lparr>pos = [e2e4], stack = [([], e2e4)]\<rparr>,
      move_history = [''e4''], redo_stack = [], pgn_file = Some [e2e4], console = []\<rparr>"

definition after_e4_e5 :: "(position, move) session" where
  "after_e4_e5 =
     \<lparr>board = \<lparr>pos = [e2e4, e7e5], stack = [([], e2e4), ([e2e4], e7e5)]\<rparr>,
      move_history = [''e4'', ''e5''], redo_stack = [], pgn_file = Some [e2e4, e7e5],
      console = []\<rparr>"



abbreviation d2d4 :: move where "d2d4 \<equiv> Move ''d2'' ''d4''"

definition e4_undone :: "(position, move) session" where
  "e4_undone =
     \<lparr>board = \<lparr>pos = [], stack = []\<rparr>,
      move_history = [], redo_stack = [e2e4], pgn_file = Some [e2e4], console = []\<rparr>"

definition after_d4 :: "(position, move) session" where
  "after_d4 =
     \<lparr>board = \<lparr>pos = [d2d4], stack = [([], d2d4)]\<rparr>,
      move_history = [''d4''], redo_stack = [], pgn_file = Some [d2d4], console = []\<rparr>"

definition e4_e5_undone_twice_redone_once :: "(position, move) session" where
  "e4_e5_undone_twice_redone_once =
     \<lparr>board = \<lparr>pos = [e2e4], stack = [([], e2e4)]\<rparr>,
      move_history = [''e4''], redo_stack = [e7e5], pgn_file = Some [e2e4, e7e5],
      console = []\<rparr>"

section \<open>Lists that grow and shrink at the end\<close>

lemma follows_snoc: "follows L (st @ [e]) p \<longleftrightarrow> (follows L st (fst e) \<and> p = apply_move L (fst e) (snd e))"
  by (induction L st "fst e" rule: follows.induct) auto

lemma list_all2_snoc1:
  "list_all2 P (xs @ [x]) zs \<longleftrightarrow> (\<exists>ys y. zs = ys @ [y] \<and> P x y \<and> list_all2 P xs ys)"
proof
  assume "list_all2 P (xs @ [x]) zs"
  then show "\<exists>ys y. zs = ys @ [y] \<and> P x y \<and> list_all2 P xs ys"
    by (auto simp add: list_all2_append1 list_all2_Cons1)
next
  assume "\<exists>ys y. zs = ys @ [y] \<and> P x y \<and> list_all2 P xs ys"
  then obtain ys y where "zs = ys @ [y]" "P x y" "list_all2 P xs ys" by blast
  then show "list_all2 P (xs @ [x]) zs"
    by (simp add: list_all2_appendI)
qed

lemma snoc_cases: "xs \<noteq> [] \<Longrightarrow> \<exists>ys y. xs = ys @ [y]"
  by (cases xs rule: rev_cases) simp_all

lemma history_matches_length:
  "history_matches L s \<Longrightarrow> length (move_history s) = length (move_stack (board s))"
  by (auto simp add: history_matches_def move_stack_def dest: list_all2_lengthD)

lemma undo_then_redo:
  assumes h: "history_matches L s" and l: "linked L (board s)" and ne: "stack (board s) \<noteq> []"
  shows "\<exists>u. undo_move s = Returns PyNone u \<and> redo_move L u = Returns PyNone s
             \<and> history_matches L u \<and> linked L (board u)
             \<and> Suc (length (stack (board u))) = length (stack (board s))"
proof -
  from ne obtain st e where st: "stack (board s) = st @ [e]" using snoc_cases by blast
  from h st obtain hs sn where hs: "move_history s = hs @ [sn]" and sn: "san L (fst e) (snd e) = Inr sn"
      and hm: "list_all2 (\<lambda>e sn. san L (fst e) (snd e) = Inr sn) st hs"
    unfolding history_matches_def by (auto simp add: list_all2_snoc1)
  from l st have fl: "follows L st (fst e)" and p: "pos (board s) = apply_move L (fst e) (snd e)"
    unfolding linked_def by (simp_all add: follows_snoc)
  let ?u = "s\<lparr>board := \<lparr>pos = fst e, stack = st\<rparr>, redo_stack := redo_stack s @ [snd e],
               move_history := hs\<rparr>"
  have u: "undo_move s = Returns PyNone ?u"
    using st hs by (simp add: undo_move_def move_stack_def pop_def)
  have "push L (snd e) \<lparr>pos = fst e, stack = st\<rparr> = board s"
    using st p by (simp add: push_def)
  then have r: "redo_move L ?u = Returns PyNone s"
    using sn hs by (simp add: redo_move_def)
  have "history_matches L ?u" using hm by (simp add: history_matches_def)
  moreover have "linked L (board ?u)" using fl by (simp add: linked_def)
  moreover have "Suc (length (stack (board ?u))) = length (stack (board s))" using st by simp
  ultimately show ?thesis using u r by blast
qed

lemma repeat_end:
  "repeat (Suc n) f s =
     (case repeat n f s of
        Returns v s' \<Rightarrow> (case f s' of Returns v' s'' \<Rightarrow> Returns PyNone s'' | Raises e s'' \<Rightarrow> Raises e s'')
      | Raises e s' \<Rightarrow> Raises e s')"
proof (induction n arbitrary: s)
  case 0
  show ?case by (simp split: outcome.splits)
next
  case (Suc n)
  show ?case
  proof (cases "f s")
    case (Returns v s')
    then show ?thesis using Suc.IH [of s'] by simp
  next
    case (Raises e s')
    then show ?thesis by simp
  qed
qed

lemma undo_redo_repeat:
  assumes "history_matches L s" and "linked L (board s)" and "n \<le> length (stack (board s))"
  shows "\<exists>u. repeat n undo_move s = Returns PyNone u \<and> repeat n (redo_move L) u = Returns PyNone s"
  using assms
proof (induction n arbitrary: s)
  case 0
  show ?case by simp
next
  case (Suc n)
  then have "stack (board s) \<noteq> []" by auto
  with Suc.prems obtain u1 where u1: "undo_move s = Returns PyNone u1"
      and r1: "redo_move L u1 = Returns PyNone s"
      and inv: "history_matches L u1" "linked L (board u1)"
      and len: "Suc (length (stack (board u1))) = length (stack (board s))"
    using undo_then_redo [of L s] by blast
  from len Suc.prems have "n \<le> length (stack (board u1))" by simp
  with inv obtain u where u: "repeat n undo_move u1 = Returns PyNone u"
      and r: "repeat n (redo_move L) u = Returns PyNone u1"
    using Suc.IH [of u1] by blast
  have "repeat (Suc n) undo_move s = Returns PyNone u" using u1 u by simp
  moreover have "repeat (Suc n) (redo_move L) u = Returns PyNone s"
    using r r1 by (simp only: repeat_end outcome.case)
  ultimately show ?case by blast
qed

lemma consistent_initial: "consistent L (initial L)"
  by (simp add: consistent_def initial_def new_board_def history_matches_def linked_def)

lemma consistent_print: "consistent L (print_line l s) = consistent L s"
  by (simp add: consistent_def print_line_def history_matches_def)

lemma consistent_commit:
  assumes c: "consistent L s" and leg: "is_legal L (pos (board s)) m" and sn: "san L (pos (board s)) m = Inr sn"
  shows "consistent L (s\<lparr>board := push L m (board s), move_history := move_history s @ [sn], redo_stack := rs\<rparr>)
          = replayable L (apply_move L (pos (board s)) m) (rev rs)"
  using assms
  by (simp add: consistent_def history_matches_def linked_def push_def follows_snoc list_all2_snoc1)

lemma consistent_make_move:
  assumes c: "consistent L s"
  shows "consistent L (state_of (make_move L tok s))"
proof (cases "parse_move L (pos (board s)) tok")
  case (Inl e)
  then show ?thesis using c by (simp add: make_move_def consistent_print)
next
  case (Inr mo)
  show ?thesis
  proof (cases mo)
    case None
    then show ?thesis using c Inr by (simp add: make_move_def consistent_print)
  next
    case (Some m)
    show ?thesis
    proof (cases "move_bool L m \<and> is_legal L (pos (board s)) m")
      case False
      then show ?thesis using c Inr Some by (auto simp add: make_move_def consistent_print)
    next
      case True
      show ?thesis
      proof (cases "san L (pos (board s)) m")
        case (Inl e)
        then show ?thesis using c Inr Some True by (simp add: make_move_def consistent_print)
      next
        case sn: (Inr sn)
        let ?s1 = "s\<lparr>board := push L m (board s), move_history := move_history s @ [sn], redo_stack := []\<rparr>"
        have c1: "consistent L ?s1" using consistent_commit [OF c _ sn, of "[]"] True by simp
        have "consistent L (?s1\<lparr>pgn_file := x\<rparr>)" for x
          using c1 by (simp add: consistent_def history_matches_def)
        then show ?thesis using c1 Inr Some True sn
          by (simp add: make_move_def save_pgn_def consistent_print)
      qed
    qed
  qed
qed

lemma consistent_undo:
  assumes c: "consistent L s"
  shows "consistent L (state_of (undo_move s))"
proof (cases "stack (board s) = []")
  case True
  then show ?thesis using c by (simp add: undo_move_def move_stack_def)
next
  case False
  then obtain st e where st: "stack (board s) = st @ [e]" using snoc_cases by blast
  from c st obtain hs sn where hs: "move_history s = hs @ [sn]" and sn: "san L (fst e) (snd e) = Inr sn"
      and hm: "list_all2 (\<lambda>e sn. san L (fst e) (snd e) = Inr sn) st hs"
    unfolding consistent_def history_matches_def by (auto simp add: list_all2_snoc1)
  have u: "undo_move s = Returns PyNone (s\<lparr>board := \<lparr>pos = fst e, stack = st\<rparr>,
             redo_stack := redo_stack s @ [snd e], move_history := hs\<rparr>)"
    using st hs by (simp add: undo_move_def move_stack_def pop_def)
  from c st have fl: "follows L st (fst e)" and p: "pos (board s) = apply_move L (fst e) (snd e)"
    by (simp_all add: consistent_def linked_def follows_snoc)
  from c st have leg: "list_all (\<lambda>e. is_legal L (fst e) (snd e)) st" "is_legal L (fst e) (snd e)"
    by (simp_all add: consistent_def)
  from c have "replayable L (pos (board s)) (rev (redo_stack s))"
    by (simp add: consistent_def)
  then have "replayable L (apply_move L (fst e) (snd e)) (rev (redo_stack s))"
    by (simp only: p)
  then show ?thesis using fl leg hm sn unfolding u
    by (simp add: consistent_def history_matches_def linked_def)
qed

lemma consistent_redo:
  assumes c: "consistent L s"
  shows "consistent L (state_of (redo_move L s))"
proof (cases "redo_stack s = []")
  case True
  then show ?thesis using c by (simp add: redo_move_def)
next
  case False
  then obtain rs m where rs: "redo_stack s = rs @ [m]" using snoc_cases by blast
  from c rs have leg: "is_legal L (pos (board s)) m" and nl: "\<not> isl (san L (pos (board s)) m)"
      and rp: "replayable L (apply_move L (pos (board s)) m) (rev rs)"
    by (simp_all add: consistent_def)
  from nl obtain sn where sn: "san L (pos (board s)) m = Inr sn" by (cases "san L (pos (board s)) m") simp_all
  have r: "redo_move L s = Returns PyNone (s\<lparr>redo_stack := rs, board := push L m (board s),
             move_history := move_history s @ [sn]\<rparr>)"
    using rs sn by (simp add: redo_move_def)
  have "consistent L (s\<lparr>board := push L m (board s), move_history := move_history s @ [sn], redo_stack := rs\<rparr>)"
    using consistent_commit [OF c leg sn, of rs] rp by simp
  then show ?thesis unfolding r by (simp add: consistent_def history_matches_def)
qed

lemma consistent_play_best:
  assumes c: "consistent L s"
  shows "consistent L (state_of (play_best L reply s))"
  using c consistent_make_move [OF c]
  by (simp add: play_best_def split: option.splits sum.splits)

lemma consistent_exec: "consistent L s \<Longrightarrow> consistent L (state_of (exec L c s))"
  by (cases c) (simp_all add: exec_def consistent_make_move consistent_undo consistent_redo consistent_play_best)

lemma consistent_run: "consistent L s \<Longrightarrow> consistent L (state_of (run L cs s))"
proof (induction cs arbitrary: s)
  case Nil
  then show ?case by simp
next
  case (Cons c cs)
  from Cons.prems have c1: "consistent L (state_of (exec L c s))" by (rule consistent_exec)
  show ?case
  proof (cases "exec L c s")
    case (Returns v s')
    then show ?thesis using c1 Cons.IH [of s'] by simp
  next
    case (Raises e s')
    then show ?thesis using c1 by simp
  qed
qed

section \<open>Command interpretation\<close>

lemma parse_command_raises_iff:
  "isl (parse_command cmd) \<longleftrightarrow> cmd \<noteq> [] \<and> remove_spaces cmd = []"
  by (auto simp add: parse_command_def Let_def split: list.splits)

text \<open>
  C5. The specification: for every input string, the empty string and strings of whitespace only
  included, command interpretation returns a command or a distinct failure value and never
  raises. The empty string is answered with \<open>None\<close> before the spaces are removed; a string
  of spaces only passes that test, is emptied by the removal, and the read of its first
  character raises IndexError. Evaluated at the string of one space.
\<close>

theorem parse_command_one_space_raises: "parse_command '' '' = Inl IndexError"
  by (simp add: parse_command_def remove_spaces_def)

section \<open>Undo and redo\<close>

text \<open>
  C1. From every state the session reaches from the initial one, \<open>n\<close> calls of \<open>undo_move\<close>
  (\<open>n\<close> at most the number of applied moves) followed by \<open>n\<close> calls of \<open>redo_move\<close> all
  return and end in the very state they started from: position (piece placement, castling
  rights, en-passant square, clocks, side to move), move stack, notation history, redo
  stack, file and console.
\<close>

theorem undo_redo_round_trip:
  assumes "run L cs (initial L) = Returns v s" and "n \<le> length (move_stack (board s))"
  shows "\<exists>u. repeat n undo_move s = Returns PyNone u \<and> repeat n (redo_move L) u = Returns PyNone s"
proof -
  have "consistent L (state_of (run L cs (initial L)))"
    by (rule consistent_run [OF consistent_initial])
  then have "history_matches L s" and "linked L (board s)"
    using assms(1) by (simp_all add: consistent_def)
  moreover have "n \<le> length (stack (board s))"
    using assms(2) by (simp add: move_stack_def)
  ultimately show ?thesis by (rule undo_redo_repeat)
qed

theorem undo_redo_round_trip_witness:
  "run chess_part [Make_move ''e4'', Make_move ''e5''] (initial chess_part) = Returns PyNone after_e4_e5
   \<and> 2 \<le> length (move_stack (board after_e4_e5))
   \<and> (\<exists>u. repeat 2 undo_move after_e4_e5 = Returns PyNone u
          \<and> repeat 2 (redo_move chess_part) u = Returns PyNone after_e4_e5)"
proof -
  have r: "run chess_part [Make_move ''e4'', Make_move ''e5''] (initial chess_part) = Returns PyNone after_e4_e5"
    by code_simp
  have n: "2 \<le> length (move_stack (board after_e4_e5))"
    by (simp add: after_e4_e5_def move_stack_def)
  show ?thesis using r n undo_redo_round_trip [OF r n] by blast
qed

text \<open>
  C9. The specification has \<open>undo\<close> return a boolean, true after an undo and false on an empty
  history. \<open>undo_move\<close> has no return statement: after undoing the one move of \<open>after_e4\<close>
  and on the empty history that results, it returns \<open>None\<close> both times.
\<close>

theorem undo_returns_none_both_times:
  "undo_move after_e4 = Returns PyNone e4_undone
   \<and> undo_move e4_undone = Returns PyNone e4_undone"
  by (simp add: undo_move_def after_e4_def e4_undone_def move_stack_def pop_def)

text \<open>
  C9, as the code has it. In every state the session reaches, \<open>undo_move\<close> returns \<open>None\<close>
  and raises nothing. With an empty move stack the state is left as it is. Otherwise the
  last move leaves the board, which goes back to the position saved with it, the move is
  appended to the redo stack, and the last notation entry is removed.
\<close>

theorem undo_move_returns_none:
  assumes "run L cs (initial L) = Returns v s"
  shows "undo_move s = Returns PyNone
           (if move_stack (board s) = [] then s
            else s\<lparr>board := \<lparr>pos = fst (last (stack (board s))), stack = butlast (stack (board s))\<rparr>,
                   redo_stack := redo_stack s @ [last (move_stack (board s))],
                   move_history := butlast (move_history s)\<rparr>)"
proof -
  have "consistent L (state_of (run L cs (initial L)))"
    by (rule consistent_run [OF consistent_initial])
  then have "history_matches L s" using assms by (simp add: consistent_def)
  then have "length (move_history s) = length (stack (board s))"
    using history_matches_length [of L s] by (simp add: move_stack_def)
  then have "stack (board s) \<noteq> [] \<Longrightarrow> move_history s \<noteq> []" by auto
  then show ?thesis
    by (auto simp add: undo_move_def move_stack_def pop_def Let_def last_map)
qed

theorem undo_move_returns_none_witness:
  "run chess_part [Make_move ''e4''] (initial chess_part) = Returns PyNone after_e4
   \<and> undo_move after_e4 = Returns PyNone e4_undone"
proof -
  have r: "run chess_part [Make_move ''e4''] (initial chess_part) = Returns PyNone after_e4"
    by code_simp
  have "undo_move after_e4 = Returns PyNone e4_undone"
    unfolding undo_move_returns_none [OF r]
    by (simp add: after_e4_def e4_undone_def move_stack_def)
  then show ?thesis using r by blast
qed



section \<open>The notation history\<close>

lemma make_move_rejected:
  assumes "rejected L (pos (board s)) tok"
  shows "make_move L tok s = Returns PyNone
           (print_line (case parse_move L (pos (board s)) tok of
                          Inl e \<Rightarrow> Move_error e | Inr mo \<Rightarrow> Illegal_move tok) s)"
  using assms
  by (auto simp add: rejected_def make_move_def split: sum.splits option.splits)

lemma make_move_shape:
  "(\<exists>l. make_move L tok s = Returns PyNone (print_line l s))
   \<or> (\<exists>m sn. move_bool L m \<and> is_legal L (pos (board s)) m \<and> san L (pos (board s)) m = Inr sn
        \<and> make_move L tok s = Returns PyNone
             (if open_ok L
              then s\<lparr>board := push L m (board s), move_history := move_history s @ [sn],
                     redo_stack := [], pgn_file := Some (move_stack (push L m (board s)))\<rparr>
              else print_line (Move_error OSError)
                     (s\<lparr>board := push L m (board s), move_history := move_history s @ [sn],
                        redo_stack := []\<rparr>)))"
  by (auto simp add: make_move_def save_pgn_def split: sum.splits option.splits)

lemma make_move_applies:
  assumes "parse_move L (pos (board s)) tok = Inr (Some m)" and "move_bool L m"
    and "is_legal L (pos (board s)) m" and "san L (pos (board s)) m = Inr sn"
  shows "board (state_of (make_move L tok s)) = push L m (board s)
         \<and> move_history (state_of (make_move L tok s)) = move_history s @ [sn]
         \<and> redo_stack (state_of (make_move L tok s)) = []"
  using assms by (simp add: make_move_def save_pgn_def print_line_def)


lemma push_changes_board: "push L m b \<noteq> b"
proof
  assume "push L m b = b"
  then have "stack (push L m b) = stack b" by simp
  then show False by (simp add: push_def)
qed

lemma history_matches_make_move:
  assumes h: "history_matches L s"
  shows "history_matches L (state_of (make_move L tok s))"
  using make_move_shape [of L tok s] h
  by (auto simp add: history_matches_def print_line_def push_def list_all2_snoc1)

lemma history_matches_undo:
  assumes h: "history_matches L s"
  shows "history_matches L (state_of (undo_move s))"
proof (cases "stack (board s) = []")
  case True
  then show ?thesis using h by (simp add: undo_move_def move_stack_def)
next
  case False
  then obtain st e where st: "stack (board s) = st @ [e]" using snoc_cases by blast
  from h st obtain hs sn where hs: "move_history s = hs @ [sn]"
      and hm: "list_all2 (\<lambda>e sn. san L (fst e) (snd e) = Inr sn) st hs"
    unfolding history_matches_def by (auto simp add: list_all2_snoc1)
  show ?thesis using st hs hm
    by (simp add: undo_move_def move_stack_def pop_def history_matches_def)
qed

lemma history_matches_redo:
  assumes h: "history_matches L s"
  shows "history_matches L (state_of (redo_move L s))"
  using h
  by (auto simp add: redo_move_def Let_def history_matches_def push_def list_all2_snoc1
           split: sum.splits)

text \<open>
  C10. \<open>history_matches\<close> holds in the initial state and is kept by \<open>make_move\<close>,
  \<open>undo_move\<close> and \<open>redo_move\<close>, whatever their outcome: the notation list and the move
  stack of the board have the same length, and the i-th notation is the one \<open>board.san\<close>
  gives the i-th stacked move in the position in which it was played.
\<close>

theorem history_matches_kept:
  "history_matches L (initial L)
   \<and> (history_matches L s \<longrightarrow>
        length (move_history s) = length (move_stack (board s))
        \<and> history_matches L (state_of (make_move L tok s))
        \<and> history_matches L (state_of (undo_move s))
        \<and> history_matches L (state_of (redo_move L s)))"
  by (simp add: history_matches_make_move history_matches_undo history_matches_redo
        history_matches_length)
     (simp add: history_matches_def initial_def new_board_def)

theorem history_matches_kept_witness:
  "history_matches chess_part after_e4
   \<and> length (move_history after_e4) = length (move_stack (board after_e4))
   \<and> history_matches chess_part (state_of (make_move chess_part ''e5'' after_e4))
   \<and> history_matches chess_part (state_of (undo_move after_e4))
   \<and> history_matches chess_part (state_of (redo_move chess_part after_e4))"
proof -
  have h: "history_matches chess_part after_e4" by code_simp
  have "history_matches chess_part after_e4 \<longrightarrow>
        length (move_history after_e4) = length (move_stack (board after_e4))
        \<and> history_matches chess_part (state_of (make_move chess_part ''e5'' after_e4))
        \<and> history_matches chess_part (state_of (undo_move after_e4))
        \<and> history_matches chess_part (state_of (redo_move chess_part after_e4))"
    by (rule conjunct2 [OF history_matches_kept])
  then show ?thesis using h by blast
qed

section \<open>Rejected moves\<close>

text \<open>
  C3. When the token is rejected (it gives no move, or a move that is not legal in the
  current position), \<open>make_move\<close> returns with the board, the notation history, the redo
  stack and the file as they were; it only prints one line. The same token is rejected
  again in the state that results, with the same line.
\<close>

theorem rejected_move_changes_nothing:
  assumes "rejected L (pos (board s)) tok"
  shows "\<exists>l. make_move L tok s = Returns PyNone (s\<lparr>console := console s @ [l]\<rparr>)
            \<and> make_move L tok (s\<lparr>console := console s @ [l]\<rparr>)
                = Returns PyNone (s\<lparr>console := console s @ [l, l]\<rparr>)"
proof -
  let ?l = "case parse_move L (pos (board s)) tok of Inl e \<Rightarrow> Move_error e | Inr mo \<Rightarrow> Illegal_move tok"
  have 1: "make_move L tok s = Returns PyNone (print_line ?l s)"
    using assms by (rule make_move_rejected)
  have "rejected L (pos (board (print_line ?l s))) tok"
    using assms by (simp add: print_line_def)
  then have "make_move L tok (print_line ?l s) = Returns PyNone (print_line ?l (print_line ?l s))"
    using make_move_rejected [of L "print_line ?l s" tok] by (simp add: print_line_def)
  with 1 have "make_move L tok s = Returns PyNone (s\<lparr>console := console s @ [?l]\<rparr>)
            \<and> make_move L tok (s\<lparr>console := console s @ [?l]\<rparr>)
                = Returns PyNone (s\<lparr>console := console s @ [?l, ?l]\<rparr>)"
    by (simp add: print_line_def)
  then show ?thesis by blast
qed

theorem rejected_move_changes_nothing_witness:
  "rejected chess_part (pos (board after_e4)) ''e4''
   \<and> (\<exists>l. make_move chess_part ''e4'' after_e4 = Returns PyNone (after_e4\<lparr>console := console after_e4 @ [l]\<rparr>)
          \<and> make_move chess_part ''e4'' (after_e4\<lparr>console := console after_e4 @ [l]\<rparr>)
                = Returns PyNone (after_e4\<lparr>console := console after_e4 @ [l, l]\<rparr>))"
proof -
  have r: "rejected chess_part (pos (board after_e4)) ''e4''" by code_simp
  show ?thesis using r rejected_move_changes_nothing [OF r] by blast
qed

section \<open>Reading a move\<close>

text \<open>
  C2. The specification has a token of exactly four letters or digits read as coordinate form in
  preference to algebraic form, and every other token read as algebraic form only.
  \<open>make_move\<close> tests the length alone: the four characters \<open>Nf6+\<close>, not all letters or
  digits and no move in the start position, are handed to \<open>from_uci\<close>, whose exception is
  the result, where the claimed reading gives no move without asking \<open>from_uci\<close>.
\<close>

theorem four_characters_reach_from_uci:
  "parse_move chess_part [] ''Nf6+'' = Inl ValueError
   \<and> parse_move_claimed chess_part [] ''Nf6+'' = Inr None"
  by code_simp

text \<open>
  C2, as the code has it. Every token is read as algebraic form first, and a move found
  that way is the move taken. Only when \<open>parse_san\<close> raises and the token has exactly four
  characters, of any kind, is the token read as coordinate form; an exception of
  \<open>from_uci\<close> is then printed as a move error and the state is left as it was. A token of
  any other length that \<open>parse_san\<close> does not read gives no move. So \<open>make_move\<close> does
  not depend on \<open>from_uci\<close> when \<open>parse_san\<close> reads the token or the token has another
  length. Whichever notation gave the move, it is pushed, with its notation appended, when it
  is legal in the current position; a token that gives no move, or a move that is null or not
  legal, is printed as an illegal move.
\<close>

theorem algebraic_form_read_first:
  "(parse_san L p tok = Inr m \<longrightarrow> parse_move L p tok = Inr (Some m))
   \<and> (isl (parse_san L p tok) \<and> length tok = 4 \<longrightarrow>
        parse_move L p tok = (case from_uci L tok of Inl e \<Rightarrow> Inl e | Inr m' \<Rightarrow> Inr (Some m')))
   \<and> (isl (parse_san L p tok) \<and> length tok \<noteq> 4 \<longrightarrow> parse_move L p tok = Inr None)
   \<and> (\<not> isl (parse_san L (pos (board s)) tok) \<or> length tok \<noteq> 4 \<longrightarrow>
        make_move (L\<lparr>from_uci := f\<rparr>) tok s = make_move L tok s)
   \<and> (isl (parse_san L (pos (board s)) tok) \<and> length tok = 4 \<and> from_uci L tok = Inl e \<longrightarrow>
        make_move L tok s = Returns PyNone (s\<lparr>console := console s @ [Move_error e]\<rparr>))
   \<and> (parse_move L (pos (board s)) tok = Inr None \<longrightarrow>
        make_move L tok s = Returns PyNone (s\<lparr>console := console s @ [Illegal_move tok]\<rparr>))
   \<and> (parse_move L (pos (board s)) tok = Inr (Some m)
        \<and> \<not> (move_bool L m \<and> is_legal L (pos (board s)) m) \<longrightarrow>
        make_move L tok s = Returns PyNone (s\<lparr>console := console s @ [Illegal_move tok]\<rparr>))
   \<and> (parse_move L (pos (board s)) tok = Inr (Some m) \<and> move_bool L m
        \<and> is_legal L (pos (board s)) m \<and> san L (pos (board s)) m = Inr sn \<longrightarrow>
        board (state_of (make_move L tok s)) = push L m (board s)
        \<and> move_history (state_of (make_move L tok s)) = move_history s @ [sn])"
proof -
  have 1: "parse_san L p tok = Inr m \<longrightarrow> parse_move L p tok = Inr (Some m)"
    by (simp add: parse_move_def)
  have 2: "isl (parse_san L p tok) \<and> length tok = 4 \<longrightarrow>
        parse_move L p tok = (case from_uci L tok of Inl e \<Rightarrow> Inl e | Inr m' \<Rightarrow> Inr (Some m'))"
    by (auto simp add: parse_move_def split: sum.splits)
  have 3: "isl (parse_san L p tok) \<and> length tok \<noteq> 4 \<longrightarrow> parse_move L p tok = Inr None"
    by (auto simp add: parse_move_def split: sum.splits)
  have 4: "\<not> isl (parse_san L (pos (board s)) tok) \<or> length tok \<noteq> 4 \<longrightarrow>
        make_move (L\<lparr>from_uci := f\<rparr>) tok s = make_move L tok s"
    by (auto simp add: parse_move_def make_move_def save_pgn_def push_def split: sum.splits)
  have 5: "isl (parse_san L (pos (board s)) tok) \<and> length tok = 4 \<and> from_uci L tok = Inl e \<longrightarrow>
        make_move L tok s = Returns PyNone (s\<lparr>console := console s @ [Move_error e]\<rparr>)"
    by (auto simp add: parse_move_def make_move_def print_line_def split: sum.splits)
  have 6: "parse_move L (pos (board s)) tok = Inr None \<longrightarrow>
        make_move L tok s = Returns PyNone (s\<lparr>console := console s @ [Illegal_move tok]\<rparr>)"
    by (simp add: make_move_def print_line_def)
  have 7: "parse_move L (pos (board s)) tok = Inr (Some m)
        \<and> \<not> (move_bool L m \<and> is_legal L (pos (board s)) m) \<longrightarrow>
        make_move L tok s = Returns PyNone (s\<lparr>console := console s @ [Illegal_move tok]\<rparr>)"
    by (auto simp add: make_move_def print_line_def)
  have 8: "parse_move L (pos (board s)) tok = Inr (Some m) \<and> move_bool L m
        \<and> is_legal L (pos (board s)) m \<and> san L (pos (board s)) m = Inr sn \<longrightarrow>
        board (state_of (make_move L tok s)) = push L m (board s)
        \<and> move_history (state_of (make_move L tok s)) = move_history s @ [sn]"
    using make_move_applies [of L s tok m sn] by blast
  show ?thesis using 1 2 3 4 5 6 7 8 by blast
qed

theorem algebraic_form_read_first_witness:
  "parse_san chess_part [] ''e4'' = Inr e2e4 \<and> parse_move chess_part [] ''e4'' = Inr (Some e2e4)
   \<and> isl (parse_san chess_part [] ''e2e5'') \<and> parse_move chess_part [] ''e2e5'' = Inr (Some e2e5)
   \<and> isl (parse_san chess_part [] ''Nf6'') \<and> parse_move chess_part [] ''Nf6'' = Inr None
   \<and> from_uci chess_part ''Nf6+'' = Inl ValueError
   \<and> make_move chess_part ''Nf6+'' (initial chess_part)
       = Returns PyNone ((initial chess_part)\<lparr>console := console (initial chess_part) @ [Move_error ValueError]\<rparr>)
   \<and> board (state_of (make_move chess_part ''e4'' (initial chess_part)))
       = push chess_part e2e4 (board (initial chess_part))"
proof -
  have a: "parse_san chess_part [] ''e4'' = Inr e2e4" by code_simp
  have b: "isl (parse_san chess_part [] ''e2e5'') \<and> length ''e2e5'' = 4" by code_simp
  have c: "isl (parse_san chess_part [] ''Nf6'') \<and> length ''Nf6'' \<noteq> 4" by code_simp
  have u: "from_uci chess_part ''e2e5'' = Inr e2e5" by code_simp
  have d: "isl (parse_san chess_part (pos (board (initial chess_part))) ''Nf6+'') \<and> length ''Nf6+'' = 4
           \<and> from_uci chess_part ''Nf6+'' = Inl ValueError" by code_simp
  have g: "parse_move chess_part (pos (board (initial chess_part))) ''e4'' = Inr (Some e2e4)
           \<and> move_bool chess_part e2e4 \<and> is_legal chess_part (pos (board (initial chess_part))) e2e4
           \<and> san chess_part (pos (board (initial chess_part))) e2e4 = Inr ''e4''" by code_simp
  have 1: "parse_move chess_part [] ''e4'' = Inr (Some e2e4)"
    using algebraic_form_read_first [of chess_part "[]" "''e4''" e2e4] a by blast
  have "parse_move chess_part [] ''e2e5'' = (case from_uci chess_part ''e2e5'' of Inl e \<Rightarrow> Inl e | Inr m' \<Rightarrow> Inr (Some m'))"
    using algebraic_form_read_first [of chess_part "[]" "''e2e5''"] b by blast
  then have 2: "parse_move chess_part [] ''e2e5'' = Inr (Some e2e5)" by (simp add: u)
  have 3: "parse_move chess_part [] ''Nf6'' = Inr None"
    using algebraic_form_read_first [of chess_part "[]" "''Nf6''"] c by blast
  have 4: "make_move chess_part ''Nf6+'' (initial chess_part)
       = Returns PyNone ((initial chess_part)\<lparr>console := console (initial chess_part) @ [Move_error ValueError]\<rparr>)"
    using algebraic_form_read_first [of chess_part _ "''Nf6+''" _ "initial chess_part" _ ValueError] d by blast
  have 5: "board (state_of (make_move chess_part ''e4'' (initial chess_part)))
       = push chess_part e2e4 (board (initial chess_part))"
    using algebraic_form_read_first [of chess_part _ "''e4''" e2e4 "initial chess_part" _ _ "''e4''"] g by blast
  show ?thesis using a b c d 1 2 3 4 5 by blast
qed

section \<open>The redo stack\<close>

lemma redo_stack_make_move:
  "(board (state_of (make_move L tok s)) \<noteq> board s \<longrightarrow> redo_stack (state_of (make_move L tok s)) = [])
   \<and> (board (state_of (make_move L tok s)) = board s \<longrightarrow> redo_stack (state_of (make_move L tok s)) = redo_stack s)"
  using make_move_shape [of L tok s] push_changes_board [of L _ "board s"]
  by (auto simp add: print_line_def split: if_splits)

lemma redo_stack_undo: "\<exists>ms. redo_stack (state_of (undo_move s)) = redo_stack s @ ms"
  by (auto simp add: undo_move_def Let_def pop_def split: sum.splits prod.splits)

lemma redo_stack_redo: "redo_stack (state_of (redo_move L s)) = butlast (redo_stack s)"
  by (auto simp add: redo_move_def Let_def split: sum.splits)

lemma redo_stack_play_best:
  "redo_stack s = [] \<Longrightarrow> redo_stack (state_of (play_best L reply s)) = []"
  using redo_stack_make_move [of L _ s]
  by (auto simp add: play_best_def split: option.splits sum.splits)

lemma redo_stack_stays_empty:
  "redo_stack s = [] \<Longrightarrow> Undo_move \<notin> set cs \<Longrightarrow> redo_stack (state_of (run L cs s)) = []"
proof (induction cs arbitrary: s)
  case Nil
  then show ?case by simp
next
  case (Cons c cs)
  have e: "redo_stack (state_of (exec L c s)) = []"
  proof (cases c)
    case (Make_move tok)
    then show ?thesis using redo_stack_make_move [of L tok s] Cons.prems(1)
      by (auto simp add: exec_def)
  next
    case Undo_move
    then show ?thesis using Cons.prems(2) by simp
  next
    case Redo_move
    then show ?thesis using redo_stack_redo [of L s] Cons.prems(1) by (simp add: exec_def)
  next
    case (Play_best reply)
    then show ?thesis using redo_stack_play_best [OF Cons.prems(1)] by (simp add: exec_def)
  qed
  show ?case
  proof (cases "exec L c s")
    case (Returns v s')
    then show ?thesis using e Cons.IH [of s'] Cons.prems(2) by simp
  next
    case (Raises x s')
    then show ?thesis using e by simp
  qed
qed

text \<open>
  C4. A call of \<open>make_move\<close> that applies a move (the board changes) leaves the redo stack
  empty, and one that applies none leaves it as it was. No other procedure clears it:
  \<open>undo_move\<close> only appends to it and \<open>redo_move\<close> removes its last move and no more. With
  an empty redo stack \<open>redo_move\<close> returns without any change, and the stack stays empty
  through every run of calls without an \<open>undo_move\<close>.
\<close>

theorem commit_clears_redo_stack:
  "(board (state_of (make_move L tok s)) \<noteq> board s \<longrightarrow> redo_stack (state_of (make_move L tok s)) = [])
   \<and> (board (state_of (make_move L tok s)) = board s \<longrightarrow> redo_stack (state_of (make_move L tok s)) = redo_stack s)
   \<and> (\<exists>ms. redo_stack (state_of (undo_move s)) = redo_stack s @ ms)
   \<and> redo_stack (state_of (redo_move L s)) = butlast (redo_stack s)
   \<and> (redo_stack s = [] \<longrightarrow> redo_move L s = Returns PyNone s)
   \<and> (redo_stack s = [] \<and> Undo_move \<notin> set cs \<longrightarrow> redo_stack (state_of (run L cs s)) = [])"
  using redo_stack_make_move [of L tok s] redo_stack_undo [of s] redo_stack_redo [of L s]
    redo_stack_stays_empty [of s cs L]
  by (simp add: redo_move_def)

theorem commit_clears_redo_stack_witness:
  "redo_stack e4_undone = [e2e4]
   \<and> make_move chess_part ''d4'' e4_undone = Returns PyNone after_d4
   \<and> redo_stack after_d4 = []
   \<and> redo_move chess_part after_d4 = Returns PyNone after_d4
   \<and> redo_stack (state_of (run chess_part [Redo_move, Make_move ''e5'', Redo_move] after_d4)) = []"
proof -
  have m: "make_move chess_part ''d4'' e4_undone = Returns PyNone after_d4" by code_simp
  have b: "board (state_of (make_move chess_part ''d4'' e4_undone)) \<noteq> board e4_undone"
    unfolding m by (simp add: after_d4_def e4_undone_def)
  have 1: "redo_stack (state_of (make_move chess_part ''d4'' e4_undone)) = []"
    using commit_clears_redo_stack [of chess_part "''d4''" e4_undone] b by blast
  then have e: "redo_stack after_d4 = []" unfolding m by simp
  have u: "Undo_move \<notin> set [Redo_move, Make_move ''e5'', Redo_move :: move call]" by simp
  have 2: "redo_move chess_part after_d4 = Returns PyNone after_d4"
    using commit_clears_redo_stack [of chess_part _ after_d4] e by blast
  have 3: "redo_stack (state_of (run chess_part [Redo_move, Make_move ''e5'', Redo_move] after_d4)) = []"
    using commit_clears_redo_stack [of chess_part _ after_d4 "[Redo_move, Make_move ''e5'', Redo_move]"] e u
    by blast
  have "redo_stack e4_undone = [e2e4]" by (simp add: e4_undone_def)
  then show ?thesis using m e 2 3 by blast
qed

section \<open>The transcript\<close>

lemma make_move_writes_file:
  assumes "open_ok L" and "board (state_of (make_move L tok s)) \<noteq> board s"
  shows "pgn_file (state_of (make_move L tok s))
           = Some (move_stack (board (state_of (make_move L tok s))))"
  using make_move_shape [of L tok s] assms
  by (auto simp add: print_line_def)

lemma redo_move_keeps_file: "pgn_file (state_of (redo_move L s)) = pgn_file s"
  by (simp add: redo_move_def Let_def split: sum.splits)

text \<open>
  C8. The specification has every applied move, one re-applied by \<open>redo\<close> included, appended to the
  history and followed by a write of the whole applied sequence to the transcript.
  \<open>make_move\<close> calls \<open>save_pgn\<close> after its push; \<open>redo_move\<close> pushes and appends the
  notation but never calls it. After the moves \<open>e4\<close> and \<open>e5\<close>, two undos and one redo, the
  applied sequence is \<open>e2e4\<close> alone, and the file still holds \<open>e2e4 e7e5\<close>.
\<close>

theorem redo_leaves_transcript_behind:
  "run chess_part [Make_move ''e4'', Make_move ''e5'', Undo_move, Undo_move, Redo_move]
     (initial chess_part) = Returns PyNone e4_e5_undone_twice_redone_once"
  by code_simp

section \<open>The engine\<close>





end
